theory Spec2Isabelle
  imports Complex_Main "HOL-Library.Multiset"
begin

section \<open>Errors and arrays\<close>

text \<open>
  Every exception the modelled Python can raise is a value of \<open>error\<close>; a function that
  can raise returns \<open>error + 'a\<close> with \<open>Inl\<close> for the exception. \<open>TaskError\<close> is an
  exception raised inside the external simulation engine, carried with its message.
\<close>

datatype error =
    IndexError
  | ValueError
  | KaraboException
  | KeyError
  | AssertionError
  | IsADirectoryError
  | FileNotFoundError
  | AttributeError
  | TaskError string

text \<open>
  The sky array handed to the interferometer (\<open>sky.get_OSKAR_sky(...).to_array()\<close>) is a
  two-dimensional numeric array: a list of rows, each row the list of its columns.
  A chunk of the split is again such an array.
\<close>

type_synonym source_row = "rat list"
type_synonym sky_array = "source_row list"

section \<open>The frequency-rank split of \<open>__setup_run_simulation_oskar\<close>\<close>

text \<open>
  \<open>array_sky[:, 6]\<close>: column 6 of every row; numpy raises IndexError when the array has
  fewer than seven columns.
\<close>

definition column6 :: "sky_array \<Rightarrow> error + rat list" where
  "column6 sky =
     (if \<forall>r \<in> set sky. 6 < length r then Inr (map (\<lambda>r. r ! 6) sky) else Inl IndexError)"

text \<open>
  \<open>array_sky[array_sky[:, 6].argsort()]\<close>: the rows in ascending order of column 6.
  numpy's default \<open>argsort\<close> does not promise an order among rows of equal frequency;
  \<open>sort_key\<close> fixes one (the stable one). Nothing proved below depends on that choice.
\<close>

definition sort_by_frequency :: "sky_array \<Rightarrow> sky_array" where
  "sort_by_frequency sky = sort_key (\<lambda>r. r ! 6) sky"

text \<open>
  \<open>frequencies["freq"].rank(method="dense")\<close>: the rank of a value is the number of
  distinct values of the column that are at most that value (ties share a rank, ranks
  start at 1 and have no gaps). pandas holds the ranks as floats with integral values.
\<close>

definition dense_rank :: "rat list \<Rightarrow> nat list" where
  "dense_rank fs = map (\<lambda>v. length (remdups (filter (\<lambda>u. u \<le> v) fs))) fs"

text \<open>\<open>frequencies["rank"].iloc[-1]\<close>: the last rank; IndexError on an empty frame.\<close>

definition last_rank :: "nat list \<Rightarrow> error + nat" where
  "last_rank ranks = (if ranks = [] then Inl IndexError else Inr (last ranks))"

text \<open>
  \<open>np.ceil(R / N).astype(int)\<close>. For \<open>N = 0\<close> numpy divides to infinity with a warning
  instead of raising, and the value is never used, as \<open>range(0)\<close> is empty; the model
  then has the quotient 0 of HOL.
\<close>

definition spacing_of :: "nat \<Rightarrow> nat \<Rightarrow> nat" where
  "spacing_of R N = nat \<lceil>(of_nat R :: rat) / of_nat N\<rceil>"

text \<open>\<open>[0 + spacing * i for i in range(N)]\<close>\<close>

definition split_ranks_of :: "nat \<Rightarrow> nat \<Rightarrow> nat list" where
  "split_ranks_of spacing N = map (\<lambda>i. 0 + spacing * i) [0..<N]"

text \<open>
  \<open>frequencies[frequencies["rank"] == r].index[0]\<close>: the index of the first row whose rank
  equals \<open>r\<close>; IndexError when no row has that rank.
\<close>

fun first_index_with_rank :: "nat list \<Rightarrow> nat \<Rightarrow> nat option" where
  "first_index_with_rank [] r = None"
| "first_index_with_rank (x # xs) r =
     (if x = r then Some 0 else map_option Suc (first_index_with_rank xs r))"

text \<open>
  The loop \<open>for i in range(len(split_ranks) - 1)\<close> looks up \<open>split_ranks[i + 1]\<close>, that is
  every split rank but the first, in order, and stops at the first lookup that raises.
\<close>

fun lookup_split_idxs :: "nat list \<Rightarrow> nat list \<Rightarrow> error + nat list" where
  "lookup_split_idxs ranks [] = Inr []"
| "lookup_split_idxs ranks (r # rs) =
     (case first_index_with_rank ranks r of
        None \<Rightarrow> Inl IndexError
      | Some i \<Rightarrow>
          (case lookup_split_idxs ranks rs of
             Inl e \<Rightarrow> Inl e
           | Inr idxs \<Rightarrow> Inr (i # idxs)))"

definition split_idxs_of :: "nat list \<Rightarrow> nat list \<Rightarrow> error + nat list" where
  "split_idxs_of ranks split_ranks = lookup_split_idxs ranks (tl split_ranks)"

text \<open>
  \<open>np.split(ary, indices)\<close> with a list of indices: the sub-arrays \<open>ary[:i0]\<close>,
  \<open>ary[i0:i1]\<close>, ..., \<open>ary[ik:]\<close>, where a slice \<open>ary[a:b]\<close> is clipped to the array and
  empty when \<open>b \<le> a\<close>.
\<close>

fun np_split_from :: "nat \<Rightarrow> 'a list \<Rightarrow> nat list \<Rightarrow> 'a list list" where
  "np_split_from st ary [] = [drop st ary]"
| "np_split_from st ary (i # idxs) = drop st (take i ary) # np_split_from i ary idxs"

definition np_split :: "'a list \<Rightarrow> nat list \<Rightarrow> 'a list list" where
  "np_split ary idxs = np_split_from 0 ary idxs"

text \<open>
  One pass of the body of the \<open>while True\<close> loop up to \<open>np.split\<close>: spacing, split ranks,
  split indices, split. \<open>array_sky\<close> is the sorted array and \<open>ranks\<close> its rank column.
\<close>

definition split_once :: "sky_array \<Rightarrow> nat list \<Rightarrow> nat \<Rightarrow> error + sky_array list" where
  "split_once array_sky ranks N =
     (case last_rank ranks of
        Inl e \<Rightarrow> Inl e
      | Inr R \<Rightarrow>
          (let spacing = spacing_of R N;
               split_ranks = split_ranks_of spacing N
           in case split_idxs_of ranks split_ranks of
                Inl e \<Rightarrow> Inl e
              | Inr split_idxs \<Rightarrow> Inr (np_split array_sky split_idxs)))"

text \<open>
  The GPU side of the loop. \<open>is_cuda_available()\<close> and \<open>get_gpu_memory()\<close> come from
  \<open>karabo.util.gpu_util\<close>, which is outside the modelled files: they are the fields of
  \<open>gpu_env\<close>. \<open>itemsize\<close> is the byte size of one array element, so that \<open>nbytes\<close> of a
  chunk is its number of elements times \<open>itemsize\<close>.
\<close>

record gpu_env =
  cuda_available :: bool
  gpu_memory :: rat
  itemsize :: nat

definition nbytes :: "gpu_env \<Rightarrow> sky_array \<Rightarrow> nat" where
  "nbytes env chunk = sum_list (map length chunk) * itemsize env"

text \<open>
  \<open>ratio_vram_usage = split_array_sky[0].nbytes / 1024**2 > max_vram_usage_gpu\<close>: the
  source compares, so the value is a Boolean.
\<close>

definition ratio_vram_usage :: "gpu_env \<Rightarrow> rat \<Rightarrow> sky_array \<Rightarrow> bool" where
  "ratio_vram_usage env max_vram chunk0 =
     (of_nat (nbytes env chunk0) / 1024 ^ 2 > max_vram * gpu_memory env)"

text \<open>
  The whole \<open>while True\<close> loop. \<open>if ratio_vram_usage > 1\<close> compares the Boolean with 1
  as Python does (\<open>True\<close> counts as 1, \<open>False\<close> as 0), and
  \<open>N += int(np.ceil(ratio_vram_usage))\<close> adds that number.
\<close>

function frequency_split_loop ::
  "gpu_env \<Rightarrow> rat \<Rightarrow> sky_array \<Rightarrow> nat list \<Rightarrow> nat \<Rightarrow> error + sky_array list" where
  "frequency_split_loop env max_vram_usage_gpu array_sky ranks N =
     (case split_once array_sky ranks N of
        Inl e \<Rightarrow> Inl e
      | Inr split_array_sky \<Rightarrow>
          (if cuda_available env \<and> max_vram_usage_gpu \<noteq> 0 then
             (case split_array_sky of
                [] \<Rightarrow> Inl IndexError
              | chunk0 # _ \<Rightarrow>
                  (if (1::nat) < of_bool (ratio_vram_usage env max_vram_usage_gpu chunk0) then
                     frequency_split_loop env max_vram_usage_gpu array_sky ranks
                       (N + of_bool (ratio_vram_usage env max_vram_usage_gpu chunk0))
                   else Inr split_array_sky))
           else Inr split_array_sky))"
  by pat_completeness auto
termination
  by (relation "{}") (auto simp: of_bool_def split: if_splits)

declare frequency_split_loop.simps [simp del]

text \<open>
  The \<open>elif self.split_sky_for_dask_by == "frequency"\<close> branch: sort, rank, take the
  number of workers as the first \<open>N\<close>, and run the loop.
\<close>

definition split_by_frequency ::
  "gpu_env \<Rightarrow> rat \<Rightarrow> nat \<Rightarrow> sky_array \<Rightarrow> error + sky_array list" where
  "split_by_frequency env max_vram_usage_gpu workers sky =
     (case column6 sky of
        Inl e \<Rightarrow> Inl e
      | Inr _ \<Rightarrow>
          (let array_sky = sort_by_frequency sky;
               ranks = dense_rank (map (\<lambda>r. r ! 6) array_sky)
           in frequency_split_loop env max_vram_usage_gpu array_sky ranks workers))"

section \<open>Explicit index groups\<close>

text \<open>
  numpy index semantics on an axis of length \<open>n\<close>: \<open>0 \<le> i < n\<close> is position \<open>i\<close>,
  \<open>-n \<le> i < 0\<close> counts from the end, anything else is out of bounds.
\<close>

definition np_index :: "nat \<Rightarrow> int \<Rightarrow> nat option" where
  "np_index n i =
     (if 0 \<le> i \<and> i < int n then Some (nat i)
      else if - int n \<le> i \<and> i < 0 then Some (nat (int n + i))
      else None)"

text \<open>
  \<open>np.take(array_sky, groups, axis=0)\<close> with a list of index lists. The index lists are
  first converted to an integer array, which raises ValueError unless all of them have
  the same length; an index out of bounds raises IndexError (mode \<open>raise\<close>); otherwise
  the result holds, for each group, the rows at the group's indices, in the group's
  order. The later \<open>for sky_ in split_array_sky\<close> walks the groups of the result.
\<close>

definition np_take_rows :: "sky_array \<Rightarrow> int list list \<Rightarrow> error + sky_array list" where
  "np_take_rows array_sky groups =
     (if \<exists>g \<in> set groups. \<exists>h \<in> set groups. length g \<noteq> length h then Inl ValueError
      else if \<exists>g \<in> set groups. \<exists>i \<in> set g. np_index (length array_sky) i = None
        then Inl IndexError
      else Inr (map (map (\<lambda>i. array_sky ! the (np_index (length array_sky) i))) groups))"

section \<open>Settings trees\<close>

text \<open>
  A settings tree is a Python dict of sections, each a dict from keys to scalar values.
  \<open>{**a, **b}\<close> is \<open>a ++ b\<close>: keys of \<open>b\<close> win, whole sections at a time.
\<close>

datatype setting = Str string | Bool bool | Float rat

type_synonym settings_section = "string \<rightharpoonup> setting"
type_synonym settings = "string \<rightharpoonup> settings_section"

text \<open>
  The fields of \<open>InterferometerSimulation\<close> that the modelled methods branch on or write.
  The remaining attributes (bandwidth, averaging, filters, noise, station type, ...)
  only fill fixed keys of the settings tree; the entries they render are carried in
  \<open>static_simulator\<close>, \<open>static_interferometer\<close> and \<open>static_telescope\<close>.
  The dask client is described by its number of workers
  (\<open>len(client.scheduler_info()["workers"])\<close>) and by \<open>completion_timing\<close>, which stands
  for the order in which remote tasks happen to finish.
\<close>

record client =
  workers :: nat
  completion_timing :: nat

record interferometer_simulation =
  vis_path :: "string option"
  enable_array_beam :: bool
  beam_polX :: "string option"
  beam_polY :: "string option"
  client :: "client option"
  split_idxs_per_group :: "int list list option"
  split_sky_for_dask_by :: string
  max_vram_usage_gpu :: rat
  precision :: string
  ionosphere_fits_path :: "string option"
  static_simulator :: settings_section
  static_interferometer :: settings_section
  static_telescope :: settings_section

text \<open>Python truthiness of an optional string or list: \<open>None\<close> and the empty value are false.\<close>

definition truthy :: "'a list option \<Rightarrow> bool" where
  "truthy v = (case v of None \<Rightarrow> False | Some xs \<Rightarrow> xs \<noteq> [])"

definition yes_double_precision :: "interferometer_simulation \<Rightarrow> bool" where
  "yes_double_precision self = (precision self \<noteq> ''single'')"

definition get_OSKAR_settings_tree ::
  "interferometer_simulation \<Rightarrow> string \<Rightarrow> string \<Rightarrow> settings" where
  "get_OSKAR_settings_tree self input_telpath ms_file_path =
     (let simulator = (static_simulator self)
            (''double_precision'' \<mapsto> Bool (yes_double_precision self));
          interferometer = (static_interferometer self)
            (''ms_filename'' \<mapsto> Str ms_file_path);
          telescope = (static_telescope self)
            (''input_directory'' \<mapsto> Str input_telpath,
             ''aperture_array/array_pattern/enable'' \<mapsto> Bool (enable_array_beam self));
          telescope' =
            (if truthy (ionosphere_fits_path self) then
               telescope
                 (''ionosphere_screen_type'' \<mapsto> Str ''External'',
                  ''external_tec_screen/input_fits_file'' \<mapsto>
                     Str (the (ionosphere_fits_path self)))
             else telescope);
          interferometer' =
            (if truthy (vis_path self) then
               interferometer(''oskar_vis_filename'' \<mapsto> Str (the (vis_path self)))
             else interferometer)
      in [''simulator'' \<mapsto> simulator,
          ''interferometer'' \<mapsto> interferometer',
          ''telescope'' \<mapsto> telescope'])"

section \<open>The sky model (\<open>sky_model.py\<close>)\<close>

text \<open>
  A numpy array is its shape and its elements in row-major order. An element of a
  source array is a number or \<open>None\<close> (the default source id).
\<close>

datatype cell = Num rat | PyNone

record ndarray =
  shape :: "nat list"
  elems :: "cell list"

record sky_model =
  num_sources :: nat
  sources :: "ndarray option"

text \<open>\<open>np.atleast_2d\<close> and \<open>np.vstack\<close> of two arrays (concatenation along axis 0).\<close>

definition atleast_2d :: "ndarray \<Rightarrow> ndarray" where
  "atleast_2d a =
     (case shape a of
        [] \<Rightarrow> a\<lparr>shape := [1, 1]\<rparr>
      | [n] \<Rightarrow> a\<lparr>shape := [1, n]\<rparr>
      | _ \<Rightarrow> a)"

definition vstack :: "ndarray \<Rightarrow> ndarray \<Rightarrow> error + ndarray" where
  "vstack a b =
     (let a2 = atleast_2d a; b2 = atleast_2d b
      in if tl (shape a2) = tl (shape b2)
         then Inr \<lparr>shape = (hd (shape a2) + hd (shape b2)) # tl (shape a2),
                   elems = elems a2 @ elems b2\<rparr>
         else Inl ValueError)"

text \<open>
  The fill of \<open>add_point_sources\<close> for an \<open>(n, k)\<close> array with \<open>k < 13\<close>: an \<open>(n, 13)\<close>
  array of twelve zero columns and a last column of \<open>None\<close>, whose first \<open>k\<close> columns
  are overwritten with the given sources (\<open>fill[:, :-missing_shape] = sources\<close>).
\<close>

definition row_of :: "ndarray \<Rightarrow> nat \<Rightarrow> cell list" where
  "row_of a i = take (shape a ! 1) (drop (i * (shape a ! 1)) (elems a))"

definition fill_sources :: "ndarray \<Rightarrow> ndarray" where
  "fill_sources a =
     \<lparr>shape = [shape a ! 0, 13],
      elems = concat (map (\<lambda>i. row_of a i @ replicate (12 - shape a ! 1) (Num 0) @ [PyNone])
                        [0..<shape a ! 0])\<rparr>"

text \<open>
  \<open>add_point_sources\<close>. \<open>sources.shape[1]\<close> raises IndexError on an array with fewer than
  two dimensions. The method returns \<open>None\<close>; the model returns the updated object.
\<close>

definition add_point_sources :: "sky_model \<Rightarrow> ndarray \<Rightarrow> error + sky_model" where
  "add_point_sources self sources0 =
     (if length (shape sources0) > 2 then Inr self
      else if length (shape sources0) < 2 then Inl IndexError
      else if 2 < shape sources0 ! 1 \<and> shape sources0 ! 1 < 14 then
        (let srcs = (if shape sources0 ! 1 < 13 then fill_sources sources0 else sources0)
         in case sources self of
              Some old \<Rightarrow>
                (case vstack old srcs of
                   Inl e \<Rightarrow> Inl e
                 | Inr stacked \<Rightarrow>
                     Inr (self\<lparr>sources := Some stacked,
                               num_sources := num_sources self + shape srcs ! 0\<rparr>))
            | None \<Rightarrow>
                Inr (self\<lparr>sources := Some srcs,
                          num_sources := num_sources self + shape srcs ! 0\<rparr>))
      else Inr self)"


section \<open>Dispatch to the dask cluster\<close>

text \<open>
  What the interferometer takes from outside the modelled files, as fields of \<open>world\<close>:
  the GPU queries; \<open>sky.get_OSKAR_sky(precision=...).to_array()\<close>;
  \<open>observation.get_OSKAR_settings_tree()\<close>; the OSKAR engine (\<open>None\<close> when the run
  completes, the exception otherwise); the file path of the \<open>k\<close>-th \<open>Visibility()\<close>
  created during the \<open>c\<close>-th call of \<open>__setup_run_simulation_oskar\<close>;
  \<open>visibility.write_to_file\<close>; and, for the long observation, the directory of
  \<open>FileHandle()\<close>, \<open>Telescope.read_OSKAR_tm_file\<close> and the beam pattern methods.
  A directory is the list of its entries; the file system maps a directory path to it.
\<close>

datatype entry_kind = RegularFile | Directory

type_synonym dir_listing = "(string \<times> entry_kind) list"
type_synonym filesystem = "string \<rightharpoonup> dir_listing"

datatype pydate = DateTime int rat | Date int

record observation =
  start_date_and_time :: pydate
  number_of_days :: int
  other_settings :: settings_section

record telescope =
  path :: string

datatype visibility = Visibility setting

record world =
  gpu :: gpu_env
  oskar_sky_array :: "sky_model \<Rightarrow> string \<Rightarrow> sky_array"
  observation_settings_tree :: "observation \<Rightarrow> settings"
  oskar_run :: "settings \<Rightarrow> sky_array \<Rightarrow> string \<Rightarrow> error option"
  new_visibility_path :: "nat \<Rightarrow> nat \<Rightarrow> string"
  write_to_file :: "visibility \<Rightarrow> string \<Rightarrow> error option"
  vis_dir_path :: string
  read_OSKAR_tm_file :: "string \<Rightarrow> filesystem \<Rightarrow> error + telescope"
  beam_pol_X :: "string \<Rightarrow> telescope \<Rightarrow> filesystem \<Rightarrow> error + string \<times> filesystem"
  beam_pol_Y :: "string \<Rightarrow> string \<Rightarrow> telescope \<Rightarrow> filesystem \<Rightarrow> error + filesystem"

text \<open>
  The static method \<open>__run_simulation_oskar\<close>, the task a worker runs: run the engine,
  then return \<open>params_total["interferometer"]["ms_filename"]\<close>.
\<close>

definition run_simulation_oskar ::
  "world \<Rightarrow> settings \<Rightarrow> sky_array \<Rightarrow> string \<Rightarrow> error + setting" where
  "run_simulation_oskar w params_total os_sky prec =
     (case oskar_run w params_total os_sky prec of
        Some e \<Rightarrow> Inl e
      | None \<Rightarrow>
          (case params_total ''interferometer'' of
             None \<Rightarrow> Inl KeyError
           | Some sec \<Rightarrow>
               (case sec ''ms_filename'' of
                  None \<Rightarrow> Inl KeyError
                | Some v \<Rightarrow> Inr v)))"

text \<open>\<open>params_total = {**interferometer_params, **observation_params}\<close> for one work item.\<close>

definition params_total_of ::
  "interferometer_simulation \<Rightarrow> string \<Rightarrow> settings \<Rightarrow> string \<Rightarrow> settings" where
  "params_total_of self input_telpath observation_params ms_file_path =
     get_OSKAR_settings_tree self input_telpath ms_file_path ++ observation_params"

text \<open>
  The submission loop \<open>for sky_ in split_array_sky: futures.append(client.submit(...))\<close>.
  A future is modelled by the outcome its task will have.
\<close>

definition submit_all ::
  "world \<Rightarrow> nat \<Rightarrow> interferometer_simulation \<Rightarrow> string \<Rightarrow> settings \<Rightarrow> sky_array list \<Rightarrow>
   (error + setting) list" where
  "submit_all w call self input_telpath observation_params split_array_sky =
     map (\<lambda>(k, chunk).
            run_simulation_oskar w
              (params_total_of self input_telpath observation_params
                 (new_visibility_path w call k))
              chunk (precision self))
         (enumerate 0 split_array_sky)"

text \<open>
  \<open>client.gather(futures)\<close>, by dask's contract: when every future finished, the list of
  their results in the order of \<open>futures\<close>; otherwise the exception of a failed future
  is raised. Which failed future that is depends on the timing of the workers.
\<close>

fun task_errors :: "(error + 'a) list \<Rightarrow> error list" where
  "task_errors [] = []"
| "task_errors (Inl e # fs) = e # task_errors fs"
| "task_errors (Inr r # fs) = task_errors fs"

fun task_results :: "(error + 'a) list \<Rightarrow> 'a list" where
  "task_results [] = []"
| "task_results (Inl e # fs) = task_results fs"
| "task_results (Inr r # fs) = r # task_results fs"

definition gather :: "client \<Rightarrow> (error + 'a) list \<Rightarrow> error + 'a list" where
  "gather cl futures =
     (case task_errors futures of
        [] \<Rightarrow> Inr (task_results futures)
      | e # es \<Rightarrow> Inl ((e # es) ! (completion_timing cl mod length (e # es))))"

text \<open>
  Lines 327 to 348: submit, gather, and return \<open>Visibility(results[0])\<close>.
  \<open>gathered_results\<close> is the value of the variable \<open>results\<close>.
\<close>

definition gathered_results ::
  "world \<Rightarrow> nat \<Rightarrow> interferometer_simulation \<Rightarrow> client \<Rightarrow> string \<Rightarrow> settings \<Rightarrow>
   sky_array list \<Rightarrow> error + setting list" where
  "gathered_results w call self cl input_telpath observation_params split_array_sky =
     gather cl (submit_all w call self input_telpath observation_params split_array_sky)"

definition dispatch ::
  "world \<Rightarrow> nat \<Rightarrow> interferometer_simulation \<Rightarrow> client \<Rightarrow> string \<Rightarrow> settings \<Rightarrow>
   sky_array list \<Rightarrow> error + visibility" where
  "dispatch w call self cl input_telpath observation_params split_array_sky =
     (case gathered_results w call self cl input_telpath observation_params split_array_sky of
        Inl e \<Rightarrow> Inl e
      | Inr results \<Rightarrow>
          (case results of
             [] \<Rightarrow> Inl IndexError
           | r # _ \<Rightarrow> Inr (Visibility r)))"

text \<open>Lines 260 to 321: the choice of the split when a client is present.\<close>

definition split_array_sky_of ::
  "world \<Rightarrow> interferometer_simulation \<Rightarrow> client \<Rightarrow> sky_array \<Rightarrow> error + sky_array list" where
  "split_array_sky_of w self cl array_sky =
     (if truthy (split_idxs_per_group self) then
        np_take_rows array_sky (the (split_idxs_per_group self))
      else if split_sky_for_dask_by self = ''frequency'' then
        split_by_frequency (gpu w) (max_vram_usage_gpu self) (workers cl) array_sky
      else Inl ValueError)"


section \<open>The long observation (\<open>__run_simulation_long\<close>)\<close>

text \<open>Python's \<open>str\<close> of a non-negative integer and of an integer.\<close>

fun str_nat :: "nat \<Rightarrow> string" where
  "str_nat n = (if n < 10 then [''0123456789'' ! n]
                else str_nat (n div 10) @ [''0123456789'' ! (n mod 10)])"

declare str_nat.simps [simp del]

definition str_int :: "int \<Rightarrow> string" where
  "str_int i = (if i < 0 then CHR ''-'' # str_nat (nat (- i)) else str_nat (nat i))"













section \<open>The performance report (\<open>time_karabo_parallelization_by_channel.py\<close>)\<close>

text \<open>
  The end of \<open>main\<close>, from the assertion on: the report file name, the line written,
  and \<open>open(name, "a")\<close> followed by \<open>write\<close>. A file store maps a file name to the
  file's content; opening for append creates a missing file empty and keeps an existing
  one. \<open>nodes\<close> is the value of \<open>get_number_of_nodes()\<close>, \<open>n_vis\<close> the length of the
  simulation's result, and \<open>time_taken\<close> the rendering of the rounded minutes, which is
  a float.
\<close>

definition report_file_name :: "int \<Rightarrow> int \<Rightarrow> string" where
  "report_file_name nodes n_channels =
     ''output_'' @ str_int nodes @ ''_nodes_'' @ str_int n_channels @ ''_channels.txt''"

definition report_line :: "int \<Rightarrow> string \<Rightarrow> string" where
  "report_line n_channels time_taken =
     ''Number of channels: '' @ str_int n_channels @ ''. '' @
     ''Time taken: '' @ time_taken @ '' min.'' @ [CHR 0x0A]"

definition append_to_file :: "(string \<rightharpoonup> string) \<Rightarrow> string \<Rightarrow> string \<Rightarrow> (string \<rightharpoonup> string)" where
  "append_to_file store name text =
     store(name \<mapsto> (case store name of None \<Rightarrow> [] | Some old \<Rightarrow> old) @ text)"

definition main_report ::
  "(string \<rightharpoonup> string) \<Rightarrow> int \<Rightarrow> int \<Rightarrow> int \<Rightarrow> string \<Rightarrow> error + (string \<rightharpoonup> string)" where
  "main_report store n_vis nodes n_channels time_taken =
     (if n_vis \<noteq> n_channels then Inl AssertionError
      else Inr (append_to_file store (report_file_name nodes n_channels)
                  (report_line n_channels time_taken)))"

section \<open>Example inputs\<close>

text \<open>Small concrete inputs on which the theorems below are instantiated.\<close>

definition example_gpu_off :: gpu_env where
  "example_gpu_off = \<lparr>cuda_available = False, gpu_memory = 0, itemsize = 8\<rparr>"

definition example_sky :: sky_array where
  "example_sky =
     [[0, 0, 0, 0, 0, 0, 3],
      [0, 0, 0, 0, 0, 0, 1],
      [0, 0, 0, 0, 0, 0, 2],
      [0, 1, 0, 0, 0, 0, 1]]"

definition example_gpu_on :: gpu_env where
  "example_gpu_on = \<lparr>cuda_available = True, gpu_memory = 1000, itemsize = 8\<rparr>"

definition example_world :: world where
  "example_world =
     \<lparr>gpu = example_gpu_on,
      oskar_sky_array = (\<lambda>sky prec. example_sky),
      observation_settings_tree = (\<lambda>obs. [''observation'' \<mapsto> other_settings obs]),
      oskar_run = (\<lambda>params chunk prec. None),
      new_visibility_path = (\<lambda>c k. ''/tmp/vis_'' @ str_nat c @ ''_'' @ str_nat k @ ''.ms''),
      write_to_file = (\<lambda>vis name. None),
      vis_dir_path = ''/tmp/out'',
      read_OSKAR_tm_file = (\<lambda>p fs. Inr \<lparr>path = p\<rparr>),
      beam_pol_X = (\<lambda>pb tel fs.
         Inr (pb, fs(path tel \<mapsto> (case fs (path tel) of None \<Rightarrow> [] | Some l \<Rightarrow> l) @
                                    [(''element_pattern_fit_x.bin'', RegularFile)]))),
      beam_pol_Y = (\<lambda>pb beam tel fs.
         Inr (fs(path tel \<mapsto> (case fs (path tel) of None \<Rightarrow> [] | Some l \<Rightarrow> l) @
                                    [(''element_pattern_fit_y.bin'', RegularFile)])))\<rparr>"

definition example_client :: client where
  "example_client = \<lparr>workers = 2, completion_timing = 0\<rparr>"

definition example_simulation :: interferometer_simulation where
  "example_simulation =
     \<lparr>vis_path = None, enable_array_beam = True,
      beam_polX = Some ''beam_x.cst'', beam_polY = Some ''beam_y.cst'',
      client = Some example_client, split_idxs_per_group = None,
      split_sky_for_dask_by = ''frequency'', max_vram_usage_gpu = 4 / 5,
      precision = ''single'', ionosphere_fits_path = None,
      static_simulator = Map.empty, static_interferometer = Map.empty,
      static_telescope = Map.empty\<rparr>"

definition example_observation_params :: settings where
  "example_observation_params = [''observation'' \<mapsto> [''num_channels'' \<mapsto> Str ''16'']]"

definition example_world_failing :: world where
  "example_world_failing =
     example_world\<lparr>oskar_run :=
       (\<lambda>params chunk prec.
          if chunk = [[0, 0, 0, 0, 0, 0, 2], [0, 0, 0, 0, 0, 0, 3]]
          then Some (TaskError ''oskar run failed'') else None)\<rparr>"





definition example_sky100 :: sky_array where
  "example_sky100 =
     concat (map (\<lambda>v. replicate 10 [0, 0, 0, 0, 0, 0, v]) [1, 2, 3, 4, 5, 6, 7, 8, 9, 10])"

text \<open>The distinct frequencies of a chunk, in the order in which they first occur.\<close>

definition distinct_frequencies :: "sky_array \<Rightarrow> rat list" where
  "distinct_frequencies chunk = remdups (map (\<lambda>r. r ! 6) chunk)"

section \<open>Properties of the frequency-rank split\<close>


lemma concat_np_split_from:
  "sorted (st # idxs) \<Longrightarrow> concat (np_split_from st ary idxs) = drop st ary"
proof (induction idxs arbitrary: st)
  case Nil
  then show ?case by simp
next
  case (Cons i idxs)
  then have le: "st \<le> i" and srt: "sorted (i # idxs)" by auto
  have "drop (st - length (take i ary)) (drop i ary) = drop i ary"
    using le by (cases "i \<le> length ary") (auto simp: min_def)
  then have "drop st (take i ary @ drop i ary) = drop st (take i ary) @ drop i ary"
    by (simp only: drop_append)
  then have "drop st (take i ary) @ drop i ary = drop st ary"
    by simp
  then show ?case using Cons.IH [OF srt] by simp
qed

lemma np_split_from_not_Nil: "np_split_from st ary idxs \<noteq> []"
  by (cases idxs) auto

lemma concat_np_split: "sorted idxs \<Longrightarrow> concat (np_split ary idxs) = ary"
  using concat_np_split_from [of 0 idxs ary] by (simp add: np_split_def)

lemma length_np_split_from: "length (np_split_from st ary idxs) = Suc (length idxs)"
  by (induction idxs arbitrary: st) auto

lemma first_index_with_rank_Some:
  "first_index_with_rank xs r = Some i \<Longrightarrow> i < length xs \<and> xs ! i = r \<and> (\<forall>j<i. xs ! j \<noteq> r)"
proof (induction xs arbitrary: i)
  case Nil
  then show ?case by simp
next
  case (Cons x xs)
  show ?case
  proof (cases "x = r")
    case True
    with Cons.prems show ?thesis by simp
  next
    case False
    with Cons.prems obtain k where k: "first_index_with_rank xs r = Some k" "i = Suc k"
      by auto
    from Cons.IH [OF k(1)] False k(2) show ?thesis
      by (auto simp: less_Suc_eq_0_disj)
  qed
qed

lemma first_index_with_rank_mono:
  assumes "sorted xs" "first_index_with_rank xs r1 = Some i1"
    "first_index_with_rank xs r2 = Some i2" "r1 \<le> r2"
  shows "i1 \<le> i2"
proof (rule ccontr)
  assume "\<not> i1 \<le> i2"
  then have lt: "i2 < i1" by simp
  from first_index_with_rank_Some [OF assms(2)] first_index_with_rank_Some [OF assms(3)]
  have f: "i1 < length xs" "xs ! i1 = r1" "xs ! i2 = r2" "\<forall>j<i1. xs ! j \<noteq> r1" by auto
  from assms(1) lt f(1) have "xs ! i2 \<le> xs ! i1"
    by (simp add: sorted_iff_nth_mono)
  with f assms(4) have "xs ! i2 = r1" by simp
  with f(4) lt show False by blast
qed

lemma lookup_split_idxs_sorted:
  "sorted ranks \<Longrightarrow> sorted (r0 # rs) \<Longrightarrow> first_index_with_rank ranks r0 = Some i0 \<Longrightarrow>
   lookup_split_idxs ranks rs = Inr idxs \<Longrightarrow> sorted (i0 # idxs)"
proof (induction rs arbitrary: r0 i0 idxs)
  case Nil
  then show ?case by simp
next
  case (Cons r rs)
  from Cons.prems(4) obtain i idxs' where
    i: "first_index_with_rank ranks r = Some i" and
    rest: "lookup_split_idxs ranks rs = Inr idxs'" and idxs: "idxs = i # idxs'"
    by (auto split: option.splits sum.splits)
  from Cons.prems(2) have "r0 \<le> r" "sorted (r # rs)" by auto
  with Cons.prems(1,3) i have "i0 \<le> i"
    using first_index_with_rank_mono by blast
  moreover have "sorted (i # idxs')"
    using Cons.IH [OF Cons.prems(1) \<open>sorted (r # rs)\<close> i rest] .
  ultimately show ?case using idxs by auto
qed

lemma lookup_split_idxs_sorted_all:
  "sorted ranks \<Longrightarrow> sorted rs \<Longrightarrow> lookup_split_idxs ranks rs = Inr idxs \<Longrightarrow> sorted idxs"
proof (cases rs)
  case Nil
  assume "lookup_split_idxs ranks rs = Inr idxs"
  with Nil show ?thesis by simp
next
  case (Cons r rs')
  assume a: "sorted ranks" "sorted rs" "lookup_split_idxs ranks rs = Inr idxs"
  from a(3) Cons obtain i idxs' where
    i: "first_index_with_rank ranks r = Some i" and
    rest: "lookup_split_idxs ranks rs' = Inr idxs'" and idxs: "idxs = i # idxs'"
    by (auto split: option.splits sum.splits)
  from lookup_split_idxs_sorted [OF a(1) _ i rest] a(2) Cons idxs show ?thesis by simp
qed

lemma sorted_split_ranks_of: "sorted (split_ranks_of spacing N)"
  by (auto simp: split_ranks_of_def sorted_iff_nth_mono)

lemma sorted_dense_rank: "sorted fs \<Longrightarrow> sorted (dense_rank fs)"
proof -
  assume s: "sorted fs"
  have mono: "length (remdups (filter (\<lambda>u. u \<le> v) fs)) \<le> length (remdups (filter (\<lambda>u. u \<le> w) fs))"
    if "v \<le> w" for v w
  proof -
    have "card (set (filter (\<lambda>u. u \<le> v) fs)) \<le> card (set (filter (\<lambda>u. u \<le> w) fs))"
      using that by (intro card_mono) auto
    then show ?thesis by (simp only: length_remdups_card_conv)
  qed
  show ?thesis
    using s by (auto simp: dense_rank_def sorted_iff_nth_mono intro!: mono)
qed

lemma frequency_split_loop_is_split_once:
  "frequency_split_loop env m array_sky ranks N = split_once array_sky ranks N"
proof (cases "split_once array_sky ranks N")
  case (Inl e)
  then show ?thesis by (subst frequency_split_loop.simps) simp
next
  case (Inr chunks)
  then have "chunks \<noteq> []"
    by (auto simp: split_once_def Let_def np_split_def np_split_from_not_Nil split: sum.splits)
  with Inr show ?thesis
    by (subst frequency_split_loop.simps) (auto simp: of_bool_def split: list.splits)
qed

lemma split_once_concat:
  assumes "sorted ranks" "split_once array_sky ranks N = Inr chunks"
  shows "concat chunks = array_sky"
proof -
  from assms(2) obtain R idxs where
    idxs: "split_idxs_of ranks (split_ranks_of (spacing_of R N) N) = Inr idxs" and
    chunks: "chunks = np_split array_sky idxs"
    by (auto simp: split_once_def Let_def split: sum.splits)
  have "sorted (tl (split_ranks_of (spacing_of R N) N))"
    using sorted_split_ranks_of by (simp add: sorted_tl)
  from lookup_split_idxs_sorted_all [OF assms(1) this] idxs have "sorted idxs"
    by (simp add: split_idxs_of_def)
  then show ?thesis using chunks by (simp add: concat_np_split)
qed

lemma nth_concat_slice:
  "i < length xss \<Longrightarrow>
   xss ! i = take (length (xss ! i)) (drop (sum_list (map length (take i xss))) (concat xss))"
proof (induction xss arbitrary: i)
  case Nil
  then show ?case by simp
next
  case (Cons xs xss)
  then show ?case by (cases i) auto
qed


text \<open>
  Claim C2. Whenever the frequency-rank split returns chunks, for any collection, any
  number of workers and any GPU setting, the chunks are consecutive, non-overlapping
  slices of the collection sorted by frequency: their concatenation is the sorted
  collection (in rank order), chunk \<open>i\<close> is the slice that starts where the chunks
  before it end, the multiset union of the chunks' rows is the multiset of the input's
  rows, and the row counts add up to the input's row count.
\<close>

theorem frequency_split_chunks_partition:
  assumes "split_by_frequency env max_vram n_workers sky = Inr chunks"
  shows "concat chunks = sort_by_frequency sky \<and>
         sorted (map (\<lambda>r. r ! 6) (concat chunks)) \<and>
         (\<Sum>c\<leftarrow>chunks. mset c) = mset sky \<and>
         sum_list (map length chunks) = length sky \<and>
         (\<forall>i<length chunks. chunks ! i =
            take (length (chunks ! i))
              (drop (sum_list (map length (take i chunks))) (sort_by_frequency sky)))"
proof -
  let ?ys = "sort_by_frequency sky"
  let ?ranks = "dense_rank (map (\<lambda>r. r ! 6) ?ys)"
  from assms have so: "split_once ?ys ?ranks n_workers = Inr chunks"
    by (auto simp: split_by_frequency_def Let_def frequency_split_loop_is_split_once
        split: sum.splits)
  have srt: "sorted (map (\<lambda>r. r ! 6) ?ys)"
    by (simp add: sort_by_frequency_def)
  then have "sorted ?ranks" by (rule sorted_dense_rank)
  from split_once_concat [OF this so] have c: "concat chunks = ?ys" .
  have m: "(\<Sum>c\<leftarrow>chunks. mset c) = mset (concat chunks)"
    by (simp add: mset_concat)
  have l: "sum_list (map length chunks) = length (concat chunks)"
    by (simp add: length_concat)
  show ?thesis
    using c srt m l nth_concat_slice [of _ chunks]
    by (simp add: sort_by_frequency_def)
qed

theorem frequency_split_chunks_partition_witness:
  "split_by_frequency example_gpu_off 0 2 example_sky =
     Inr [[[0, 0, 0, 0, 0, 0, 1], [0, 1, 0, 0, 0, 0, 1]],
          [[0, 0, 0, 0, 0, 0, 2], [0, 0, 0, 0, 0, 0, 3]]] \<and>
   concat [[[0, 0, 0, 0, 0, 0, 1], [0, 1, 0, 0, 0, 0, 1]],
           [[0, 0, 0, 0, 0, 0, 2], [0, 0, 0, 0, 0, 0, 3 :: rat]]] =
     sort_by_frequency example_sky \<and>
   mset [[0, 0, 0, 0, 0, 0, 1], [0, 1, 0, 0, 0, 0, 1]] +
     mset [[0, 0, 0, 0, 0, 0, 2], [0, 0, 0, 0, 0, 0, 3]] = mset example_sky"
proof -
  have h: "split_by_frequency example_gpu_off 0 2 example_sky =
     Inr [[[0, 0, 0, 0, 0, 0, 1], [0, 1, 0, 0, 0, 0, 1]],
          [[0, 0, 0, 0, 0, 0, 2], [0, 0, 0, 0, 0, 0, 3]]]"
    by code_simp
  from frequency_split_chunks_partition [OF h] h show ?thesis
    by simp
qed

text \<open>
  Claim C1, evaluated on an input whose first chunk is over the budget. With CUDA
  available, 1000 MiB of GPU memory and \<open>max_vram_usage_gpu = 1e-7\<close> the budget is
  0.0001 MiB; the first chunk of the split for two workers has 112 bytes, which is more.
  The loop still returns the split for two workers, first chunk over budget:
  \<open>ratio_vram_usage\<close> is a Boolean, never greater than 1, so the branch that
  increases \<open>N\<close> is never taken (lemma \<open>frequency_split_loop_is_split_once\<close>).
\<close>

theorem escalation_skipped_over_budget:
  "split_by_frequency example_gpu_on (1 / 10000000) 2 example_sky =
     Inr [[[0, 0, 0, 0, 0, 0, 1], [0, 1, 0, 0, 0, 0, 1]],
          [[0, 0, 0, 0, 0, 0, 2], [0, 0, 0, 0, 0, 0, 3]]] \<and>
   ratio_vram_usage example_gpu_on (1 / 10000000)
     [[0, 0, 0, 0, 0, 0, 1], [0, 1, 0, 0, 0, 0, 1]]"
  by code_simp

subsection \<open>One hundred rows over ten ranks, four workers\<close>

lemma dense_rank_card:
  "dense_rank fs = map (\<lambda>v. card {u \<in> set fs. u \<le> v}) fs"
  by (simp add: dense_rank_def length_remdups_card_conv)

lemma card_below_nth:
  fixes vs :: "'a::linorder list"
  assumes "sorted_wrt (<) vs" "i < length vs"
  shows "card {u \<in> set vs. u \<le> vs ! i} = Suc i"
proof -
  have d: "distinct vs"
    using assms(1) by (simp add: strict_sorted_iff)
  have "{u \<in> set vs. u \<le> vs ! i} = set (take (Suc i) vs)"
  proof (intro set_eqI iffI)
    fix u assume "u \<in> {u \<in> set vs. u \<le> vs ! i}"
    then obtain j where j: "j < length vs" "u = vs ! j" "vs ! j \<le> vs ! i"
      by (auto simp: in_set_conv_nth)
    have "j \<le> i"
    proof (rule ccontr)
      assume "\<not> j \<le> i"
      then have "i < j" by simp
      with assms(1) j(1) have "vs ! i < vs ! j"
        by (simp add: sorted_wrt_iff_nth_less)
      with j(3) show False by simp
    qed
    with j assms(2) show "u \<in> set (take (Suc i) vs)"
      by (auto simp: in_set_conv_nth intro!: exI [of _ j])
  next
    fix u assume "u \<in> set (take (Suc i) vs)"
    then obtain j where j: "j < Suc i" "j < length vs" "u = vs ! j"
      by (auto simp: in_set_conv_nth)
    have "vs ! j \<le> vs ! i"
    proof (cases "j = i")
      case True
      then show ?thesis by simp
    next
      case False
      with j(1) have "j < i" by simp
      with assms have "vs ! j < vs ! i"
        by (simp add: sorted_wrt_iff_nth_less)
      then show ?thesis by simp
    qed
    with j show "u \<in> {u \<in> set vs. u \<le> vs ! i}" by simp
  qed
  moreover have "card (set (take (Suc i) vs)) = length (take (Suc i) vs)"
    using d by (intro distinct_card distinct_take)
  ultimately show ?thesis using assms(2) by simp
qed

lemma set_concat_replicate:
  "0 < m \<Longrightarrow> set (concat (map (replicate m) vs)) = set vs"
  by (induction vs) auto

lemma dense_rank_uniform:
  assumes "sorted_wrt (<) vs" "0 < m"
  shows "dense_rank (concat (map (replicate m) vs)) =
         concat (map (\<lambda>i. replicate m (Suc i)) [0..<length vs])"
proof -
  let ?G = "concat (map (replicate m) vs)"
  have "dense_rank ?G = map (\<lambda>v. card {u \<in> set vs. u \<le> v}) ?G"
    by (simp add: dense_rank_card set_concat_replicate [OF assms(2)])
  also have "\<dots> = concat (map (\<lambda>v. replicate m (card {u \<in> set vs. u \<le> v})) vs)"
    by (simp add: map_concat comp_def)
  also have "\<dots> = concat (map (\<lambda>v. replicate m (card {u \<in> set vs. u \<le> v}))
                              (map (nth vs) [0..<length vs]))"
    by (simp only: map_nth)
  also have "\<dots> = concat (map (\<lambda>i. replicate m (card {u \<in> set vs. u \<le> vs ! i}))
                              [0..<length vs])"
    by (simp add: comp_def)
  also have "\<dots> = concat (map (\<lambda>i. replicate m (Suc i)) [0..<length vs])"
    using card_below_nth [OF assms(1)] by (intro arg_cong [of _ _ concat] map_cong) auto
  finally show ?thesis .
qed

lemma sorted_concat_replicate:
  "sorted vs \<Longrightarrow> sorted (concat (map (replicate m) vs))"
  by (induction vs) (auto simp: sorted_append)

lemma sorted_frequencies_unique:
  assumes "mset (map (\<lambda>r. r ! 6) sky) = mset G" "sorted G"
  shows "map (\<lambda>r. r ! 6) (sort_by_frequency sky) = (G :: rat list)"
proof -
  let ?F = "map (\<lambda>r. r ! 6) (sort_by_frequency sky)"
  have "sorted ?F" by (simp add: sort_by_frequency_def)
  moreover have "mset ?F = mset G"
    using assms(1) by (simp add: sort_by_frequency_def)
  ultimately have "sort G = ?F" by (intro properties_for_sort) 
  moreover have "sort G = G" using assms(2) by (simp add: sort_key_id_if_sorted)
  ultimately show ?thesis by simp
qed

lemma ranks_100:
  "split_idxs_of (concat (map (\<lambda>i. replicate 10 (Suc i)) [0..<10]))
     (split_ranks_of (spacing_of 10 4) 4) = Inr [20, 50, 80] \<and>
   last_rank (concat (map (\<lambda>i. replicate 10 (Suc i)) [0..<10])) = Inr 10"
  by code_simp


lemma expand_10: "length (vs :: 'a list) = 10 \<Longrightarrow>
  vs = [vs ! 0, vs ! 1, vs ! 2, vs ! 3, vs ! 4, vs ! 5, vs ! 6, vs ! 7, vs ! 8, vs ! 9]"
proof -
  assume l: "length vs = 10"
  have u: "[0..<10] = [0, 1, 2, 3, 4, 5, 6, 7, 8, 9 :: nat]" by code_simp
  have "vs = map (nth vs) [0..<length vs]" by (simp only: map_nth)
  then show ?thesis unfolding l u by simp
qed

lemma uniform_split:
  assumes cols: "\<forall>r \<in> set sky. 6 < length r"
    and len: "length vs = 10" and strict: "sorted_wrt (<) vs"
    and uniform: "mset (map (\<lambda>r. r ! 6) sky) = mset (concat (map (replicate 10) vs))"
  shows "split_by_frequency env max_vram 4 sky =
           Inr [take 20 (sort_by_frequency sky),
                drop 20 (take 50 (sort_by_frequency sky)),
                drop 50 (take 80 (sort_by_frequency sky)),
                drop 80 (sort_by_frequency sky)]"
    and "length (sort_by_frequency sky) = 100"
    and "map (\<lambda>r. r ! 6) (sort_by_frequency sky) = concat (map (replicate 10) vs)"
proof -
  let ?ys = "sort_by_frequency sky"
  let ?G = "concat (map (replicate 10) vs)"
  have "sorted vs" using strict by (rule strict_sorted_imp_sorted)
  then have "sorted ?G" by (rule sorted_concat_replicate)
  from sorted_frequencies_unique [OF uniform this]
  show F: "map (\<lambda>r. r ! 6) ?ys = ?G" .
  have "length ?G = 100"
    using len by (simp add: length_concat comp_def sum_list_triv)
  with F show "length ?ys = 100"
    using length_map [of "\<lambda>r. r ! 6" ?ys] by simp
  have ranks: "dense_rank (map (\<lambda>r. r ! 6) ?ys) =
               concat (map (\<lambda>i. replicate 10 (Suc i)) [0..<10])"
    unfolding F using dense_rank_uniform [OF strict, of 10] len by simp
  have once: "split_once ?ys (dense_rank (map (\<lambda>r. r ! 6) ?ys)) 4 =
              Inr (np_split ?ys [20, 50, 80])"
    unfolding ranks split_once_def using ranks_100 by (simp add: Let_def)
  have "split_by_frequency env max_vram 4 sky = Inr (np_split ?ys [20, 50, 80])"
    using cols once
    by (simp add: split_by_frequency_def column6_def Let_def
        frequency_split_loop_is_split_once)
  then show "split_by_frequency env max_vram 4 sky =
           Inr [take 20 ?ys, drop 20 (take 50 ?ys), drop 50 (take 80 ?ys), drop 80 ?ys]"
    by (simp add: np_split_def)
qed


lemma example_sky100_uniform:
  "\<forall>r \<in> set example_sky100. 6 < length r"
  "length [1, 2, 3, 4, 5, 6, 7, 8, 9, 10 :: rat] = 10"
  "sorted_wrt (<) [1, 2, 3, 4, 5, 6, 7, 8, 9, 10 :: rat]"
  "mset (map (\<lambda>r. r ! 6) example_sky100) =
   mset (concat (map (replicate 10) [1, 2, 3, 4, 5, 6, 7, 8, 9, 10]))"
  by (simp_all add: example_sky100_def)

text \<open>
  Claim C5 fails as worded. On 100 rows with 10 rows at each of the frequencies 1 to 10
  (so that the dense rank of a row is its frequency) and four workers, the chunks have
  20, 30, 30 and 20 rows, not 25 each, and hold the ranks 1 to 2, 3 to 5, 6 to 8 and 9
  to 10: the boundaries are at the ranks 3, 6 and 9 (\<open>i * spacing\<close> with spacing 3).
\<close>

theorem uniform_split_sizes_20_30_30_20:
  "map_sum id (map length) (split_by_frequency example_gpu_off 0 4 example_sky100) =
     Inr [20, 30, 30, 20] \<and>
   map_sum id (map distinct_frequencies) (split_by_frequency example_gpu_off 0 4 example_sky100) =
     Inr [[1, 2], [3, 4, 5], [6, 7, 8], [9, 10]]"
proof -
  let ?ys = "sort_by_frequency example_sky100"
  note s = uniform_split(1) [OF example_sky100_uniform, of example_gpu_off 0]
  note n = uniform_split(2) [OF example_sky100_uniform]
  note G = uniform_split(3) [OF example_sky100_uniform]
  have l: "map length [take 20 ?ys, drop 20 (take 50 ?ys), drop 50 (take 80 ?ys), drop 80 ?ys] =
           [20, 30, 30, 20]"
    using n by simp
  have r: "remdups (take 20 (concat (map (replicate 10) [1, 2, 3, 4, 5, 6, 7, 8, 9, 10 :: rat]))) =
             [1, 2]"
    "remdups (drop 20 (take 50 (concat (map (replicate 10)
        [1, 2, 3, 4, 5, 6, 7, 8, 9, 10 :: rat])))) = [3, 4, 5]"
    "remdups (drop 50 (take 80 (concat (map (replicate 10)
        [1, 2, 3, 4, 5, 6, 7, 8, 9, 10 :: rat])))) = [6, 7, 8]"
    "remdups (drop 80 (concat (map (replicate 10) [1, 2, 3, 4, 5, 6, 7, 8, 9, 10 :: rat]))) =
             [9, 10]"
    by code_simp+
  have f0: "distinct_frequencies (take 20 ?ys) = [1, 2]"
    unfolding distinct_frequencies_def take_map [symmetric] G by (rule r)
  have f1: "distinct_frequencies (drop 20 (take 50 ?ys)) = [3, 4, 5]"
    unfolding distinct_frequencies_def take_map [symmetric] drop_map [symmetric] G by (rule r)
  have f2: "distinct_frequencies (drop 50 (take 80 ?ys)) = [6, 7, 8]"
    unfolding distinct_frequencies_def take_map [symmetric] drop_map [symmetric] G by (rule r)
  have f3: "distinct_frequencies (drop 80 ?ys) = [9, 10]"
    unfolding distinct_frequencies_def drop_map [symmetric] G by (rule r)
  show ?thesis
    unfolding s using l f0 f1 f2 f3 by simp
qed

text \<open>
  Claim C5, amended. For every input whose column 6 holds ten distinct frequencies
  \<open>vs ! 0 < ... < vs ! 9\<close>, each in exactly ten rows (100 rows, dense ranks 1 to 10,
  \<open>vs ! k\<close> being the frequency of rank \<open>k + 1\<close>), and for four workers, with or without
  a memory budget, the split returns exactly four chunks of 20, 30, 30 and 20 rows, in
  rank order (their concatenation is the sorted input), holding the rows of the ranks
  1 to 2, 3 to 5, 6 to 8 and 9 to 10: the rank intervals [1,3), [3,6), [6,9), [9,11).
\<close>

theorem uniform_split_four_workers:
  assumes "\<forall>r \<in> set sky. 6 < length r"
    and "length vs = 10" and "sorted_wrt (<) vs"
    and "mset (map (\<lambda>r. r ! 6) sky) = mset (concat (map (replicate 10) vs))"
  shows "\<exists>c0 c1 c2 c3.
     split_by_frequency env max_vram 4 sky = Inr [c0, c1, c2, c3] \<and>
     map length [c0, c1, c2, c3] = [20, 30, 30, 20] \<and>
     c0 @ c1 @ c2 @ c3 = sort_by_frequency sky \<and>
     map (\<lambda>r. r ! 6) c0 = replicate 10 (vs ! 0) @ replicate 10 (vs ! 1) \<and>
     map (\<lambda>r. r ! 6) c1 =
       replicate 10 (vs ! 2) @ replicate 10 (vs ! 3) @ replicate 10 (vs ! 4) \<and>
     map (\<lambda>r. r ! 6) c2 =
       replicate 10 (vs ! 5) @ replicate 10 (vs ! 6) @ replicate 10 (vs ! 7) \<and>
     map (\<lambda>r. r ! 6) c3 = replicate 10 (vs ! 8) @ replicate 10 (vs ! 9)"
proof -
  let ?ys = "sort_by_frequency sky"
  note u1 = uniform_split(1) [OF assms, of env max_vram]
  note u2 = uniform_split(2) [OF assms]
  note u3 = uniform_split(3) [OF assms]
  have G: "map (\<lambda>r. r ! 6) ?ys =
     replicate 10 (vs ! 0) @ replicate 10 (vs ! 1) @ replicate 10 (vs ! 2) @
     replicate 10 (vs ! 3) @ replicate 10 (vs ! 4) @ replicate 10 (vs ! 5) @
     replicate 10 (vs ! 6) @ replicate 10 (vs ! 7) @ replicate 10 (vs ! 8) @
     replicate 10 (vs ! 9)"
    unfolding u3 by (subst expand_10 [OF assms(2)]) simp
  have l: "map length [take 20 ?ys, drop 20 (take 50 ?ys), drop 50 (take 80 ?ys), drop 80 ?ys] =
           [20, 30, 30, 20]"
    using u2 by simp
  have c: "take 20 ?ys @ drop 20 (take 50 ?ys) @ drop 50 (take 80 ?ys) @ drop 80 ?ys = ?ys"
    using concat_np_split [of "[20, 50, 80]" ?ys] by (simp add: np_split_def)
  have f0: "map (\<lambda>r. r ! 6) (take 20 ?ys) = replicate 10 (vs ! 0) @ replicate 10 (vs ! 1)"
    unfolding take_map [symmetric] G by simp
  have f1: "map (\<lambda>r. r ! 6) (drop 20 (take 50 ?ys)) =
       replicate 10 (vs ! 2) @ replicate 10 (vs ! 3) @ replicate 10 (vs ! 4)"
    unfolding take_map [symmetric] drop_map [symmetric] G by simp
  have f2: "map (\<lambda>r. r ! 6) (drop 50 (take 80 ?ys)) =
       replicate 10 (vs ! 5) @ replicate 10 (vs ! 6) @ replicate 10 (vs ! 7)"
    unfolding take_map [symmetric] drop_map [symmetric] G by simp
  have f3: "map (\<lambda>r. r ! 6) (drop 80 ?ys) = replicate 10 (vs ! 8) @ replicate 10 (vs ! 9)"
    unfolding drop_map [symmetric] G by simp
  show ?thesis
    by (rule exI [where x = "take 20 ?ys"], rule exI [where x = "drop 20 (take 50 ?ys)"],
        rule exI [where x = "drop 50 (take 80 ?ys)"], rule exI [where x = "drop 80 ?ys"],
        intro conjI)
      (rule u1 l c f0 f1 f2 f3)+
qed


theorem uniform_split_four_workers_witness:
  "\<exists>c0 c1 c2 c3.
     split_by_frequency example_gpu_off 0 4 example_sky100 = Inr [c0, c1, c2, c3] \<and>
     map length [c0, c1, c2, c3] = [20, 30, 30, 20] \<and>
     c0 @ c1 @ c2 @ c3 = sort_by_frequency example_sky100 \<and>
     map (\<lambda>r. r ! 6) c0 = replicate 10 1 @ replicate 10 2 \<and>
     map (\<lambda>r. r ! 6) c1 = replicate 10 3 @ replicate 10 4 @ replicate 10 5 \<and>
     map (\<lambda>r. r ! 6) c2 = replicate 10 6 @ replicate 10 7 @ replicate 10 8 \<and>
     map (\<lambda>r. r ! 6) c3 = replicate 10 9 @ replicate 10 10"
proof -
  have i: "[1, 2, 3, 4, 5, 6, 7, 8, 9, 10 :: rat] ! 0 = 1"
    "[1, 2, 3, 4, 5, 6, 7, 8, 9, 10 :: rat] ! 1 = 2"
    "[1, 2, 3, 4, 5, 6, 7, 8, 9, 10 :: rat] ! 2 = 3"
    "[1, 2, 3, 4, 5, 6, 7, 8, 9, 10 :: rat] ! 3 = 4"
    "[1, 2, 3, 4, 5, 6, 7, 8, 9, 10 :: rat] ! 4 = 5"
    "[1, 2, 3, 4, 5, 6, 7, 8, 9, 10 :: rat] ! 5 = 6"
    "[1, 2, 3, 4, 5, 6, 7, 8, 9, 10 :: rat] ! 6 = 7"
    "[1, 2, 3, 4, 5, 6, 7, 8, 9, 10 :: rat] ! 7 = 8"
    "[1, 2, 3, 4, 5, 6, 7, 8, 9, 10 :: rat] ! 8 = 9"
    "[1, 2, 3, 4, 5, 6, 7, 8, 9, 10 :: rat] ! 9 = 10"
    by simp_all
  show ?thesis
    using uniform_split_four_workers [OF example_sky100_uniform, of example_gpu_off 0]
    unfolding i .
qed

section \<open>Explicit groups\<close>

text \<open>
  Claim C6 fails for the empty list of groups: \<open>if self.split_idxs_per_group\<close> is false
  for \<open>[]\<close>, so the frequency-rank split runs and returns two chunks where the list of
  groups has none.
\<close>

theorem empty_groups_fall_back_to_frequency_split:
  "split_array_sky_of example_world (example_simulation\<lparr>split_idxs_per_group := Some []\<rparr>)
     example_client example_sky =
     Inr [[[0, 0, 0, 0, 0, 0, 1], [0, 1, 0, 0, 0, 0, 1]],
          [[0, 0, 0, 0, 0, 0, 2], [0, 0, 0, 0, 0, 0, 3]]] \<and>
   split_array_sky_of example_world (example_simulation\<lparr>split_idxs_per_group := Some []\<rparr>)
     example_client example_sky \<noteq> Inr []"
  by code_simp

text \<open>
  Claim C6, amended. For a non-empty list of index groups that all have the same length
  and whose indices lie within the collection (negative indices counting from the end,
  as numpy does), the split is, group by group, the collection's rows at the group's
  indices in the group's order, whatever the GPU setting, the number of workers and the
  frequencies are: no sorting, no rank split and no escalation take place.
\<close>

theorem explicit_groups_taken_verbatim:
  assumes "split_idxs_per_group self = Some groups" "groups \<noteq> []"
    "\<forall>g \<in> set groups. \<forall>h \<in> set groups. length g = length h"
    "\<forall>g \<in> set groups. \<forall>i \<in> set g. - int (length sky) \<le> i \<and> i < int (length sky)"
  shows "split_array_sky_of w self cl sky =
     Inr (map (map (\<lambda>i. sky ! nat (if i < 0 then int (length sky) + i else i))) groups)"
proof -
  have idx: "np_index (length sky) i = Some (nat (if i < 0 then int (length sky) + i else i))"
    if "g \<in> set groups" "i \<in> set g" for g i
    using assms(4) that by (auto simp: np_index_def)
  then have ok: "\<not> (\<exists>g \<in> set groups. \<exists>i \<in> set g. np_index (length sky) i = None)"
    by fastforce
  have m: "map (map (\<lambda>i. sky ! the (np_index (length sky) i))) groups =
           map (map (\<lambda>i. sky ! nat (if i < 0 then int (length sky) + i else i))) groups"
    using idx by (intro map_cong refl) simp
  have ragged: "\<not> (\<exists>g \<in> set groups. \<exists>h \<in> set groups. length g \<noteq> length h)"
    using assms(3) by blast
  have "np_take_rows sky groups =
        Inr (map (map (\<lambda>i. sky ! the (np_index (length sky) i))) groups)"
    unfolding np_take_rows_def using ragged ok by (simp only: if_False)
  then have t: "np_take_rows sky groups =
        Inr (map (map (\<lambda>i. sky ! nat (if i < 0 then int (length sky) + i else i))) groups)"
    by (simp only: m)
  have "split_array_sky_of w self cl sky = np_take_rows sky groups"
    using assms(1,2) by (simp add: split_array_sky_of_def truthy_def)
  then show ?thesis by (simp only: t)
qed

theorem explicit_groups_taken_verbatim_witness:
  "split_array_sky_of example_world
     (example_simulation\<lparr>split_idxs_per_group := Some [[3, 0], [-1, 2]]\<rparr>)
     example_client example_sky =
   Inr [[[0, 1, 0, 0, 0, 0, 1], [0, 0, 0, 0, 0, 0, 3]],
        [[0, 1, 0, 0, 0, 0, 1], [0, 0, 0, 0, 0, 0, 2]]]"
proof -
  have "split_array_sky_of example_world
     (example_simulation\<lparr>split_idxs_per_group := Some [[3, 0], [-1, 2]]\<rparr>)
     example_client example_sky =
     Inr (map (map (\<lambda>i. example_sky ! nat (if i < 0 then int (length example_sky) + i else i)))
            [[3, 0], [-1, 2]])"
    by (rule explicit_groups_taken_verbatim) (simp_all add: example_sky_def)
  then show ?thesis by (simp add: example_sky_def)
qed

section \<open>Dispatch\<close>

lemma task_errors_map_Inr: "task_errors (map Inr rs) = []"
  by (induction rs) auto

lemma task_results_map_Inr: "task_results (map Inr rs) = rs"
  by (induction rs) auto

lemma gather_all_succeeded: "gather cl (map Inr rs) = Inr rs"
  by (simp add: gather_def task_errors_map_Inr task_results_map_Inr)

lemma set_task_errors: "e \<in> set (task_errors fs) \<longleftrightarrow> Inl e \<in> set fs"
  by (induction fs rule: task_errors.induct) auto

lemma gather_some_failed:
  assumes "Inl e \<in> set fs"
  shows "\<exists>e'. gather cl fs = Inl e' \<and> Inl e' \<in> set fs"
proof -
  from assms have "task_errors fs \<noteq> []"
    using set_task_errors [of e fs] by auto
  then obtain x xs where es: "task_errors fs = x # xs"
    by (cases "task_errors fs") auto
  let ?k = "completion_timing cl mod length (x # xs)"
  have "?k < length (x # xs)" by simp
  then have "(x # xs) ! ?k \<in> set (x # xs)" by (rule nth_mem)
  then have "Inl ((x # xs) ! ?k) \<in> set fs"
    using es set_task_errors [of "(x # xs) ! ?k" fs] by simp
  moreover have "gather cl fs = Inl ((x # xs) ! ?k)"
    by (simp add: gather_def es)
  ultimately show ?thesis by blast
qed

lemma gather_single_failure:
  "task_errors fs = [e] \<Longrightarrow> gather cl fs = Inl e"
  by (simp add: gather_def)

lemma submit_all_nth:
  "k < length chunks \<Longrightarrow>
   submit_all w call self tp op chunks ! k =
     run_simulation_oskar w (params_total_of self tp op (new_visibility_path w call k))
       (chunks ! k) (precision self)"
  by (simp add: submit_all_def nth_enumerate_eq)

lemma length_submit_all: "length (submit_all w call self tp op chunks) = length chunks"
  by (simp add: submit_all_def)

text \<open>
  Claim C3 fails as worded: two work items are submitted, both tasks succeed, the
  gathered results are the two paths in submission order, and the call returns one
  \<open>Visibility\<close>, made from the first result only (\<open>return Visibility(results[0])\<close>).
\<close>

theorem dispatch_returns_first_result_only:
  "gathered_results example_world 0 example_simulation example_client ''telescope.tm'' example_observation_params
     [[[0, 0, 0, 0, 0, 0, 1], [0, 1, 0, 0, 0, 0, 1]],
      [[0, 0, 0, 0, 0, 0, 2], [0, 0, 0, 0, 0, 0, 3]]] =
     Inr [Str ''/tmp/vis_0_0.ms'', Str ''/tmp/vis_0_1.ms''] \<and>
   dispatch example_world 0 example_simulation example_client ''telescope.tm'' example_observation_params
     [[[0, 0, 0, 0, 0, 0, 1], [0, 1, 0, 0, 0, 0, 1]],
      [[0, 0, 0, 0, 0, 0, 2], [0, 0, 0, 0, 0, 0, 3]]] =
     Inr (Visibility (Str ''/tmp/vis_0_0.ms''))"
  by code_simp


text \<open>
  Claim C3, amended. When every submitted task succeeds, with \<open>results\<close> the tasks'
  results in submission order, the gathered list is exactly \<open>results\<close>, one result per
  submitted item and result \<open>k\<close> that of item \<open>k\<close>, for every client and so for every
  completion timing; the call returns the \<open>Visibility\<close> of the first of them.
\<close>

theorem gathered_results_in_submission_order:
  assumes "submit_all w call self tp op chunks = map Inr results"
  shows "gathered_results w call self cl tp op chunks = Inr results \<and>
         length results = length chunks \<and>
         (\<forall>k<length chunks.
            run_simulation_oskar w (params_total_of self tp op (new_visibility_path w call k))
              (chunks ! k) (precision self) = Inr (results ! k)) \<and>
         dispatch w call self cl tp op chunks =
           (case results of [] \<Rightarrow> Inl IndexError | r # _ \<Rightarrow> Inr (Visibility r))"
proof -
  have g: "gathered_results w call self cl tp op chunks = Inr results"
    by (simp add: gathered_results_def assms gather_all_succeeded)
  have l: "length results = length chunks"
    using length_submit_all [of w call self tp op chunks] assms by simp
  have n: "run_simulation_oskar w (params_total_of self tp op (new_visibility_path w call k))
              (chunks ! k) (precision self) = Inr (results ! k)" if "k < length chunks" for k
    using submit_all_nth [OF that, of w call self tp op] assms l that by simp
  have d: "dispatch w call self cl tp op chunks =
           (case results of [] \<Rightarrow> Inl IndexError | r # _ \<Rightarrow> Inr (Visibility r))"
    by (simp add: dispatch_def g)
  from g l n d show ?thesis by blast
qed

theorem gathered_results_in_submission_order_witness:
  "gathered_results example_world 0 example_simulation
     (example_client\<lparr>completion_timing := 5\<rparr>) ''telescope.tm'' example_observation_params
     [[[0, 0, 0, 0, 0, 0, 1], [0, 1, 0, 0, 0, 0, 1]],
      [[0, 0, 0, 0, 0, 0, 2], [0, 0, 0, 0, 0, 0, 3]]] =
     Inr [Str ''/tmp/vis_0_0.ms'', Str ''/tmp/vis_0_1.ms'']"
proof -
  have h: "submit_all example_world 0 example_simulation ''telescope.tm''
       example_observation_params
       [[[0, 0, 0, 0, 0, 0, 1], [0, 1, 0, 0, 0, 0, 1]],
        [[0, 0, 0, 0, 0, 0, 2], [0, 0, 0, 0, 0, 0, 3]]] =
     map Inr [Str ''/tmp/vis_0_0.ms'', Str ''/tmp/vis_0_1.ms'']"
    by code_simp
  from gathered_results_in_submission_order [OF h] show ?thesis by blast
qed

text \<open>
  Claim C4. When at least one submitted task fails, the gather yields no result list
  and the call returns no \<open>Visibility\<close>: both end in the error of a failed task, and
  in that task's error when it is the only one that failed.
\<close>

theorem dispatch_fails_as_a_whole:
  assumes "Inl e \<in> set (submit_all w call self tp op chunks)"
  shows "\<exists>e'. Inl e' \<in> set (submit_all w call self tp op chunks) \<and>
           gathered_results w call self cl tp op chunks = Inl e' \<and>
           dispatch w call self cl tp op chunks = Inl e' \<and>
           (task_errors (submit_all w call self tp op chunks) = [e] \<longrightarrow> e' = e)"
proof -
  from gather_some_failed [OF assms, of cl] obtain e' where
    g: "gather cl (submit_all w call self tp op chunks) = Inl e'" and
    m: "Inl e' \<in> set (submit_all w call self tp op chunks)"
    by blast
  have r: "gathered_results w call self cl tp op chunks = Inl e'"
    by (simp add: gathered_results_def g)
  then have d: "dispatch w call self cl tp op chunks = Inl e'"
    by (simp add: dispatch_def)
  have s: "e' = e" if "task_errors (submit_all w call self tp op chunks) = [e]"
    using gather_single_failure [OF that, of cl] g by simp
  from m r d s show ?thesis by blast
qed

theorem dispatch_fails_as_a_whole_witness:
  "dispatch example_world_failing 0 example_simulation example_client ''telescope.tm''
     example_observation_params
     [[[0, 0, 0, 0, 0, 0, 1], [0, 1, 0, 0, 0, 0, 1]],
      [[0, 0, 0, 0, 0, 0, 2], [0, 0, 0, 0, 0, 0, 3]]] =
     Inl (TaskError ''oskar run failed'')"
proof -
  have h: "submit_all example_world_failing 0 example_simulation ''telescope.tm''
       example_observation_params
       [[[0, 0, 0, 0, 0, 0, 1], [0, 1, 0, 0, 0, 0, 1]],
        [[0, 0, 0, 0, 0, 0, 2], [0, 0, 0, 0, 0, 0, 3]]] =
     [Inr (Str ''/tmp/vis_0_0.ms''), Inl (TaskError ''oskar run failed'')]"
    by code_simp
  then have i: "Inl (TaskError ''oskar run failed'') \<in>
     set (submit_all example_world_failing 0 example_simulation ''telescope.tm''
       example_observation_params
       [[[0, 0, 0, 0, 0, 0, 1], [0, 1, 0, 0, 0, 0, 1]],
        [[0, 0, 0, 0, 0, 0, 2], [0, 0, 0, 0, 0, 0, 3]]])"
    by simp
  from dispatch_fails_as_a_whole [OF i, of example_client] h show ?thesis by auto
qed

section \<open>The long observation\<close>















section \<open>The sky model\<close>

text \<open>
  Claim C10. For an array with more than two dimensions, or a two-dimensional array
  whose second dimension is at most 2 or at least 14, \<open>add_point_sources\<close> returns
  without an error and the model is unchanged: \<open>sources\<close> and \<open>num_sources\<close> keep
  their values.
\<close>

theorem add_point_sources_ignores_invalid_shape:
  assumes "2 < length (shape a) \<or>
           (length (shape a) = 2 \<and> (shape a ! 1 \<le> 2 \<or> 14 \<le> shape a ! 1))"
  shows "add_point_sources self a = Inr self"
  using assms by (auto simp: add_point_sources_def)

theorem add_point_sources_ignores_invalid_shape_witness:
  "(2 < length (shape \<lparr>shape = [1, 2], elems = [Num 1, Num 2]\<rparr>) \<or>
     (length (shape \<lparr>shape = [1, 2], elems = [Num 1, Num 2]\<rparr>) = 2 \<and>
       (shape \<lparr>shape = [1, 2], elems = [Num 1, Num 2]\<rparr> ! 1 \<le> 2 \<or>
        14 \<le> shape \<lparr>shape = [1, 2], elems = [Num 1, Num 2]\<rparr> ! 1))) \<and>
   add_point_sources \<lparr>num_sources = 0, sources = None\<rparr>
     \<lparr>shape = [1, 2], elems = [Num 1, Num 2]\<rparr> = Inr \<lparr>num_sources = 0, sources = None\<rparr>"
  using add_point_sources_ignores_invalid_shape
    [of "\<lparr>shape = [1, 2], elems = [Num 1, Num 2]\<rparr>" "\<lparr>num_sources = 0, sources = None\<rparr>"]
  by simp

section \<open>The performance report\<close>

lemma newline_notin_str_nat: "CHR 0x0A \<notin> set (str_nat n)"
proof (induction n rule: str_nat.induct)
  case (1 n)
  have d: "''0123456789'' ! k \<noteq> CHR 0x0A" if "k < 10" for k :: nat
  proof -
    from that have "k \<in> {0, 1, 2, 3, 4, 5, 6, 7, 8, 9}" by auto
    then show ?thesis by auto
  qed
  show ?case
  proof (cases "n < 10")
    case True
    then show ?thesis using d [of n] by (subst str_nat.simps) simp
  next
    case False
    then show ?thesis using "1.IH" d [of "n mod 10"]
      by (subst str_nat.simps) simp
  qed
qed

lemma newline_notin_str_int: "CHR 0x0A \<notin> set (str_int i)"
  by (simp add: str_int_def newline_notin_str_nat)

text \<open>
  Claim C8 fails as worded: the file name ends in \<open>_channels.txt\<close> and the line starts
  with \<open>Number of channels:\<close>; the word \<open>items\<close> occurs in neither.
\<close>

theorem report_names_channels_not_items:
  "report_file_name 2 10 = ''output_2_nodes_10_channels.txt'' \<and>
   report_file_name 2 10 \<noteq> ''output_2_nodes_10_items.txt'' \<and>
   report_line 10 ''1.5'' = ''Number of channels: 10. Time taken: 1.5 min.'' @ [CHR 0x0A] \<and>
   report_line 10 ''1.5'' \<noteq> ''Number of items: 10. Time taken: 1.5 min.'' @ [CHR 0x0A]"
  by code_simp

text \<open>
  Claim C8, amended. A run that reaches the report (the assertion on the number of
  results holds) appends to the file \<open>output_{w}_nodes_{n}_channels.txt\<close>: the file's
  earlier content is kept (a missing file starts empty), the text
  \<open>Number of channels: {n}. Time taken: {minutes} min.\<close> and a newline follow it, every
  other file is untouched, and the appended text is one line (one newline) when the
  rendered minutes hold no newline.
\<close>

theorem report_appends_one_line:
  assumes "n_vis = n_channels"
  shows "\<exists>store'.
     main_report store n_vis nodes n_channels time_taken = Inr store' \<and>
     store' (''output_'' @ str_int nodes @ ''_nodes_'' @ str_int n_channels @ ''_channels.txt'') =
       Some ((case store (''output_'' @ str_int nodes @ ''_nodes_'' @ str_int n_channels @
                           ''_channels.txt'') of None \<Rightarrow> [] | Some old \<Rightarrow> old) @
             ''Number of channels: '' @ str_int n_channels @ ''. Time taken: '' @ time_taken @
             '' min.'' @ [CHR 0x0A]) \<and>
     (\<forall>other. other \<noteq> ''output_'' @ str_int nodes @ ''_nodes_'' @ str_int n_channels @
                        ''_channels.txt'' \<longrightarrow> store' other = store other) \<and>
     (CHR 0x0A \<notin> set time_taken \<longrightarrow>
        count_list (report_line n_channels time_taken) (CHR 0x0A) = 1)"
  using assms
  by (simp add: main_report_def append_to_file_def report_file_name_def report_line_def
      newline_notin_str_int)

theorem report_appends_one_line_witness:
  "\<exists>store'.
     main_report [''output_2_nodes_10_channels.txt'' \<mapsto> ''earlier run'' @ [CHR 0x0A]]
       10 2 10 ''1.5'' = Inr store' \<and>
     store' ''output_2_nodes_10_channels.txt'' =
       Some (''earlier run'' @ [CHR 0x0A] @
             ''Number of channels: 10. Time taken: 1.5 min.'' @ [CHR 0x0A])"
proof -
  have s: "str_int 2 = ''2''" "str_int 10 = ''10''" by code_simp+
  from report_appends_one_line [of 10 10 "[''output_2_nodes_10_channels.txt'' \<mapsto> ''earlier run'' @ [CHR 0x0A]]"
        2 "''1.5''"]
  obtain store' where
    "main_report [''output_2_nodes_10_channels.txt'' \<mapsto> ''earlier run'' @ [CHR 0x0A]]
       10 2 10 ''1.5'' = Inr store'"
    "store' (''output_'' @ str_int 2 @ ''_nodes_'' @ str_int 10 @ ''_channels.txt'') =
       Some ((case [''output_2_nodes_10_channels.txt'' \<mapsto> ''earlier run'' @ [CHR 0x0A]]
                (''output_'' @ str_int 2 @ ''_nodes_'' @ str_int 10 @ ''_channels.txt'') of
                None \<Rightarrow> [] | Some old \<Rightarrow> old) @
             ''Number of channels: '' @ str_int 10 @ ''. Time taken: '' @ ''1.5'' @
             '' min.'' @ [CHR 0x0A])"
    by blast
  then show ?thesis by (simp add: s)
qed



end
